theory Spec2Isabelle
  imports Main "HOL-Library.Word"
begin

section \<open>Data model of the Nia Voice Mac client\<close>

text \<open>
  The client (\<^verbatim>\<open>src/nia_voice_mac/main.py\<close>, class \<^verbatim>\<open>NiaMacClient\<close>) talks to
  four collaborators that are not part of the repository: the hub client, the microphone
  capture, the wake word engine and the player subprocess.  Their answers are given by an
  environment record; every call the client makes to them, every write of
  \<^verbatim>\<open>self._processing\<close> and every message that matters for a turn is recorded as
  an event, in program order.  Console output is a total action (an event).
\<close>

type_synonym bytes = "8 word list"

text \<open>
  The exceptions a turn can see.  Only subclasses of \<^verbatim>\<open>Exception\<close> are
  modelled: a turn always runs on a worker thread, where Python raises no
  \<^verbatim>\<open>KeyboardInterrupt\<close>.  The two classes the source names in a handler are
  kept apart from the rest.
\<close>

datatype exn = BrokenPipeError | TimeoutExpired | OtherError string

datatype status =
    Listening
  | NothingCaptured
  | Thinking
  | Speaking
  | ThinkingText
  | NothingTranscribed
  | ErrorStatus exn

datatype prompt_kind = TextPrompt | WakePrompt | VoicePrompt

datatype event =
    SetProcessing bool
  | Status status
  | MicRecord
  | VoicePipeline bytes string
  | Chat string
  | Popen "string list"
  | NoPlayerWarning
  | StdinWrite bytes
  | StdinClose
  | Wait nat
  | Kill
  | PrintExchange string string
  | PrintReply string
  | EchoText string
  | Traceback
  | Prompt prompt_kind
  | EngineResume
  | ResetConversation
  | PrintReset string
  | StillProcessing
  | EngineStop
  | Goodbye

datatype engine = OpenWakeWordEngine string

text \<open>The fields of \<^verbatim>\<open>NiaMacClient.__init__\<close> that the turn logic reads or writes.\<close>

record client =
  session_id :: string
  processing :: bool
  running :: bool
  text_mode :: bool
  wake_model :: "string option"
  wake_engine :: "engine option"
  player_cmd :: "string list"

text \<open>
  \<^verbatim>\<open>hub.voice_pipeline\<close> is a single blocking call that invokes the chunk callback
  zero or more times and then returns the pair (transcript, reply) or raises.  What it does
  next may depend on how the callback ended (normally, or with an exception that the hub may
  propagate or swallow), so its behaviour is a finitely deep tree.
\<close>

datatype hub_call =
    Returns "string option" string
  | Raises exn
  | Delivers bytes "exn option \<Rightarrow> hub_call"

record env =
  mic_result :: "exn + bytes"
  hub_voice :: "bytes \<Rightarrow> string \<Rightarrow> hub_call"
  hub_chat :: "string \<Rightarrow> exn + string"
  popen_result :: "exn option"
  write_result :: "nat \<Rightarrow> exn option"
  close_result :: "exn option"
  wait_result :: "exn option"

text \<open>The \<^verbatim>\<open>Popen\<close> handle: whether its stdin was closed, and how many writes it has seen.\<close>

record proc =
  stdin_closed :: bool
  nwritten :: nat

text \<open>The two \<^verbatim>\<open>nonlocal\<close> variables of \<^verbatim>\<open>_run_pipeline\<close>.\<close>

record locals =
  player_proc :: "proc option"
  first_chunk :: bool

section \<open>Audio playback\<close>

definition start_player :: "env \<Rightarrow> client \<Rightarrow> (exn + proc option) \<times> event list" where
  "start_player e s =
     (if player_cmd s = [] then (Inr None, [])
      else (case popen_result e of
              Some x \<Rightarrow> (Inl x, [Popen (player_cmd s)])
            | None \<Rightarrow> (Inr (Some \<lparr>stdin_closed = False, nwritten = 0\<rparr>), [Popen (player_cmd s)])))"

text \<open>
  \<^verbatim>\<open>_on_chunk\<close>: the result is the exception that leaves the callback (if any), the
  updated nonlocals and the events.  \<^verbatim>\<open>first_chunk\<close> is cleared before the player is
  started, so it stays cleared when \<^verbatim>\<open>Popen\<close> raises.
\<close>

definition open_on_first :: "env \<Rightarrow> client \<Rightarrow> locals \<Rightarrow> exn option \<times> locals \<times> event list" where
  "open_on_first e s l =
     (if first_chunk l then
        (case start_player e s of
           (Inl x, ev) \<Rightarrow> (Some x, l\<lparr>first_chunk := False\<rparr>, Status Speaking # ev)
         | (Inr p, ev) \<Rightarrow>
             (None, l\<lparr>first_chunk := False, player_proc := p\<rparr>,
              Status Speaking # ev @ (if p = None then [NoPlayerWarning] else [])))
      else (None, l, []))"

definition write_chunk :: "env \<Rightarrow> bytes \<Rightarrow> locals \<Rightarrow> exn option \<times> locals \<times> event list" where
  "write_chunk e chunk l =
     (case player_proc l of
        None \<Rightarrow> (None, l, [])
      | Some p \<Rightarrow>
          if stdin_closed p then (None, l, [])
          else (case write_result e (nwritten p) of
                  None \<Rightarrow>
                    (None, l\<lparr>player_proc := Some (p\<lparr>nwritten := Suc (nwritten p)\<rparr>)\<rparr>,
                     [StdinWrite chunk])
                | Some x \<Rightarrow>
                    (if x = BrokenPipeError then None else Some x,
                     l\<lparr>player_proc := Some (p\<lparr>nwritten := Suc (nwritten p)\<rparr>)\<rparr>,
                     [StdinWrite chunk])))"

definition on_chunk :: "env \<Rightarrow> client \<Rightarrow> bytes \<Rightarrow> locals \<Rightarrow> exn option \<times> locals \<times> event list" where
  "on_chunk e s chunk l =
     (case open_on_first e s l of
        (Some x, l1, ev1) \<Rightarrow> (Some x, l1, ev1)
      | (None, l1, ev1) \<Rightarrow>
          (case write_chunk e chunk l1 of (r, l2, ev2) \<Rightarrow> (r, l2, ev1 @ ev2)))"

text \<open>The remote call, driving the callback once per delivered chunk.\<close>

primrec run_hub ::
  "hub_call \<Rightarrow> env \<Rightarrow> client \<Rightarrow> locals \<Rightarrow> (exn + string option \<times> string) \<times> locals \<times> event list" where
  "run_hub (Returns t r) e s l = (Inr (t, r), l, [])"
| "run_hub (Raises x) e s l = (Inl x, l, [])"
| "run_hub (Delivers chunk k) e s l =
     (case on_chunk e s chunk l of
        (r, l1, ev1) \<Rightarrow>
          (case run_hub (k r) e s l1 of (res, l2, ev2) \<Rightarrow> (res, l2, ev1 @ ev2)))"

text \<open>
  The \<^verbatim>\<open>finally\<close> block of \<^verbatim>\<open>_run_pipeline\<close>.  Whatever \<^verbatim>\<open>stdin.close()\<close>
  raises is swallowed; of what \<^verbatim>\<open>wait(timeout=30)\<close> raises only
  \<^verbatim>\<open>TimeoutExpired\<close> is handled, by \<^verbatim>\<open>kill()\<close>.
\<close>

definition stdin_close :: "env \<Rightarrow> event list" where
  "stdin_close e = (case close_result e of None \<Rightarrow> [StdinClose] | Some x \<Rightarrow> [StdinClose])"

definition wait_or_kill :: "env \<Rightarrow> exn option \<times> event list" where
  "wait_or_kill e =
     (case wait_result e of
        None \<Rightarrow> (None, [Wait 30])
      | Some x \<Rightarrow> if x = TimeoutExpired then (None, [Wait 30, Kill]) else (Some x, [Wait 30]))"

definition close_player :: "env \<Rightarrow> locals \<Rightarrow> exn option \<times> event list" where
  "close_player e l =
     (case player_proc l of
        None \<Rightarrow> (None, [])
      | Some p \<Rightarrow> (case wait_or_kill e of (r, ev) \<Rightarrow> (r, stdin_close e @ ev)))"

section \<open>Turns\<close>

definition truthy :: "string option \<Rightarrow> bool" where
  "truthy t = (case t of None \<Rightarrow> False | Some [] \<Rightarrow> False | Some (c # cs) \<Rightarrow> True)"

definition print_result :: "string option \<Rightarrow> string \<Rightarrow> event list" where
  "print_result t r =
     (if truthy t then [PrintExchange (case t of None \<Rightarrow> [] | Some u \<Rightarrow> u) r]
      else [Status NothingTranscribed])"

definition fresh_locals :: locals where
  "fresh_locals = \<lparr>player_proc = None, first_chunk = True\<rparr>"

text \<open>
  \<^verbatim>\<open>_run_pipeline\<close>: an exception of the \<^verbatim>\<open>finally\<close> block replaces the outcome of
  the \<^verbatim>\<open>try\<close> block; otherwise that outcome stands.  The result is printed only when
  neither raised.
\<close>

definition run_pipeline :: "env \<Rightarrow> client \<Rightarrow> bytes \<Rightarrow> exn option \<times> event list" where
  "run_pipeline e s wav =
     (case run_hub (hub_voice e wav (session_id s)) e s fresh_locals of
        (res, l, ev1) \<Rightarrow>
          (case close_player e l of
             (Some x, ev2) \<Rightarrow>
               (Some x, [Status Thinking, VoicePipeline wav (session_id s)] @ ev1 @ ev2)
           | (None, ev2) \<Rightarrow>
               (case res of
                  Inl x \<Rightarrow>
                    (Some x, [Status Thinking, VoicePipeline wav (session_id s)] @ ev1 @ ev2)
                | Inr (t, r) \<Rightarrow>
                    (None, [Status Thinking, VoicePipeline wav (session_id s)] @ ev1 @ ev2
                           @ print_result t r))))"

definition prompt :: "client \<Rightarrow> event" where
  "prompt s =
     Prompt (if text_mode s then TextPrompt
             else if wake_engine s \<noteq> None then WakePrompt else VoicePrompt)"

text \<open>The \<^verbatim>\<open>try\<close> block of \<^verbatim>\<open>_run_voice\<close>.\<close>

definition voice_body :: "env \<Rightarrow> client \<Rightarrow> exn option \<times> event list" where
  "voice_body e s =
     (case mic_result e of
        Inl x \<Rightarrow> (Some x, [Status Listening, MicRecord])
      | Inr wav \<Rightarrow>
          if length wav < 2500 then (None, [Status Listening, MicRecord, Status NothingCaptured])
          else (case run_pipeline e s wav of
                  (r, ev) \<Rightarrow> (r, [Status Listening, MicRecord] @ ev)))"

text \<open>The \<^verbatim>\<open>except Exception\<close> clauses of the two turns.\<close>

definition voice_handler :: "exn option \<Rightarrow> event list" where
  "voice_handler r = (case r of None \<Rightarrow> [] | Some x \<Rightarrow> [Status (ErrorStatus x), Traceback])"

definition text_handler :: "exn option \<Rightarrow> event list" where
  "text_handler r = (case r of None \<Rightarrow> [] | Some x \<Rightarrow> [Status (ErrorStatus x)])"

text \<open>
  \<^verbatim>\<open>_run_voice\<close>: the flag is set before the \<^verbatim>\<open>try\<close>, with no test of its old
  value, and cleared first thing in the \<^verbatim>\<open>finally\<close> block.
\<close>

definition run_voice :: "env \<Rightarrow> client \<Rightarrow> client \<times> event list" where
  "run_voice e s =
     (case voice_body e (s\<lparr>processing := True\<rparr>) of
        (r, ev) \<Rightarrow>
          (s\<lparr>processing := False\<rparr>,
           [SetProcessing True] @ ev @ voice_handler r
           @ [SetProcessing False, prompt (s\<lparr>processing := False\<rparr>)]))"

definition text_body :: "env \<Rightarrow> string \<Rightarrow> exn option \<times> event list" where
  "text_body e text =
     (case hub_chat e text of
        Inl x \<Rightarrow> (Some x, [EchoText text, Status ThinkingText, Chat text])
      | Inr reply \<Rightarrow> (None, [EchoText text, Status ThinkingText, Chat text, PrintReply reply]))"

definition run_text :: "env \<Rightarrow> string \<Rightarrow> client \<Rightarrow> client \<times> event list" where
  "run_text e text s =
     (case text_body e text of
        (r, ev) \<Rightarrow>
          (s\<lparr>processing := False\<rparr>,
           [SetProcessing True] @ ev @ text_handler r
           @ [SetProcessing False, prompt (s\<lparr>processing := False\<rparr>)]))"

section \<open>Wake word\<close>

text \<open>A thread started by the client is recorded as its target.\<close>

datatype target = RunVoice | RunText string | WakeRun

definition resume_engine :: "client \<Rightarrow> event list" where
  "resume_engine s = (if wake_engine s \<noteq> None then [EngineResume] else [])"

definition on_wake_detected :: "client \<Rightarrow> event list \<times> target option" where
  "on_wake_detected s =
     (if processing s then (resume_engine s, None) else ([], Some WakeRun))"

text \<open>What a started thread runs; \<^verbatim>\<open>WakeRun\<close> is the closure \<^verbatim>\<open>_run\<close>.\<close>

definition run_target :: "env \<Rightarrow> target \<Rightarrow> client \<Rightarrow> client \<times> event list" where
  "run_target e t s =
     (case t of
        RunVoice \<Rightarrow> run_voice e s
      | RunText text \<Rightarrow> run_text e text s
      | WakeRun \<Rightarrow> (case run_voice e s of (s1, ev) \<Rightarrow> (s1, ev @ resume_engine s1)))"

section \<open>Command loop\<close>

text \<open>
  A line read by \<^verbatim>\<open>input()\<close> is a list of characters with code points below 256.
  \<^verbatim>\<open>str.strip()\<close> removes the white space characters of that range from both ends,
  \<^verbatim>\<open>str.lower()\<close> maps the upper case letters of that range to lower case.
\<close>

definition is_space :: "char \<Rightarrow> bool" where
  "is_space c =
     (let n = (of_char c :: nat)
      in (9 \<le> n \<and> n \<le> 13) \<or> (28 \<le> n \<and> n \<le> 32) \<or> n = 133 \<or> n = 160)"

definition lower_char :: "char \<Rightarrow> char" where
  "lower_char c =
     (let n = (of_char c :: nat)
      in if (65 \<le> n \<and> n \<le> 90) \<or> (192 \<le> n \<and> n \<le> 222 \<and> n \<noteq> 215)
         then char_of (n + 32) else c)"

definition py_strip :: "string \<Rightarrow> string" where
  "py_strip s = rev (dropWhile is_space (rev (dropWhile is_space s)))"

definition py_lower :: "string \<Rightarrow> string" where
  "py_lower s = map lower_char s"

text \<open>
  \<^verbatim>\<open>uuid.uuid4().hex\<close> is \<^verbatim>\<open>'%032x' % int\<close> for the 128-bit integer of the UUID:
  32 lower case hexadecimal digits, most significant first (\<open>hex_of k n\<close> is the
  last \<open>k\<close> digits of \<open>n\<close>; the integer is below \<open>16 ^ 32\<close>).  The integer drawn by
  \<^verbatim>\<open>uuid4\<close> is given by the environment of the line that asks for it.
\<close>

definition hexdigit :: "nat \<Rightarrow> char" where
  "hexdigit n = ''0123456789abcdef'' ! (n mod 16)"

fun hex_of :: "nat \<Rightarrow> nat \<Rightarrow> string" where
  "hex_of 0 n = []"
| "hex_of (Suc k) n = hex_of k (n div 16) @ [hexdigit n]"

definition uuid_hex :: "128 word \<Rightarrow> string" where
  "uuid_hex w = hex_of 32 (unat w)"

definition new_session_id :: "128 word \<Rightarrow> string" where
  "new_session_id w = take 12 (uuid_hex w)"

record line_env =
  fresh_uuid :: "128 word"
  reset_result :: "exn option"

text \<open>
  One pass through the body of the \<^verbatim>\<open>while\<close> loop of \<^verbatim>\<open>start\<close>, for a line that was
  read: the loop ends, or continues with the new client state, the printed events and the
  thread it started (if any), or an exception of \<^verbatim>\<open>reset_conversation\<close> leaves
  \<^verbatim>\<open>start\<close>.
\<close>

datatype outcome =
    Break
  | Continue client "event list" "target option"
  | Crashed exn client "event list"

definition dispatch_plain :: "string \<Rightarrow> client \<Rightarrow> outcome" where
  "dispatch_plain cmd s =
     (if text_mode s then
        (if cmd \<noteq> [] then Continue s [] (Some (RunText cmd))
         else Continue s [prompt s] None)
      else Continue s [] (Some RunVoice))"

definition do_reset :: "line_env \<Rightarrow> client \<Rightarrow> outcome" where
  "do_reset orc s =
     (case reset_result orc of
        Some x \<Rightarrow>
          Crashed x (s\<lparr>session_id := new_session_id (fresh_uuid orc)\<rparr>) [ResetConversation]
      | None \<Rightarrow>
          Continue (s\<lparr>session_id := new_session_id (fresh_uuid orc)\<rparr>)
            [ResetConversation, PrintReset (take 8 (new_session_id (fresh_uuid orc))),
             prompt (s\<lparr>session_id := new_session_id (fresh_uuid orc)\<rparr>)]
            None)"

definition handle_line :: "line_env \<Rightarrow> string \<Rightarrow> client \<Rightarrow> outcome" where
  "handle_line orc line s =
     (let cmd = py_strip line; lower = py_lower cmd
      in if lower \<in> set [''q'', ''quit'', ''exit''] then Break
         else if lower \<in> set [''r'', ''reset''] then do_reset orc s
         else if processing s then Continue s [StillProcessing, prompt s] None
         else if take 2 lower = ''t '' \<and> 2 < length cmd then
           (if py_strip (drop 2 cmd) \<noteq> []
            then Continue s [] (Some (RunText (py_strip (drop 2 cmd))))
            else dispatch_plain cmd s)
         else dispatch_plain cmd s)"

text \<open>\<^verbatim>\<open>stop\<close>, which the signal handlers call.\<close>

definition stop :: "client \<Rightarrow> client \<times> event list" where
  "stop s =
     (s\<lparr>running := False, wake_engine := None\<rparr>,
      (if wake_engine s \<noteq> None then [EngineStop] else []) @ [Goodbye])"

section \<open>Threads\<close>

text \<open>
  The command loop, the wake word callback and the started threads run concurrently.  A
  started thread has not yet executed its first statement (\<open>Spawned\<close>), or has set
  \<^verbatim>\<open>self._processing\<close> and is inside its \<^verbatim>\<open>try\<close> block (\<open>InBody\<close>), or has
  cleared the flag in its \<^verbatim>\<open>finally\<close> block (\<open>Finished\<close>).  A schedule is the
  order in which the command loop reads lines, signals arrive, the detector fires and the
  threads advance.

  The command loop tests \<^verbatim>\<open>self._running\<close> and then blocks in \<^verbatim>\<open>input()\<close>:
  \<open>reading\<close> says that it has passed the test and waits for a line.  A signal that arrives
  meanwhile runs \<^verbatim>\<open>stop\<close> and leaves the loop waiting, so the next line is still
  handled, and the test that follows it ends the loop.
\<close>

datatype pc = Spawned | InBody | Finished

record system =
  shared :: client
  threads :: "(target \<times> pc) list"
  reading :: bool

datatype action = InputLine line_env string | WakeEvent | ThreadStep nat | Interrupt

definition spawn :: "target option \<Rightarrow> (target \<times> pc) list" where
  "spawn t = (case t of None \<Rightarrow> [] | Some x \<Rightarrow> [(x, Spawned)])"

definition thread_step :: "nat \<Rightarrow> system \<Rightarrow> system option" where
  "thread_step i sys =
     (if i < length (threads sys) then
        (case threads sys ! i of
           (t, Spawned) \<Rightarrow>
             Some (sys\<lparr>shared := (shared sys)\<lparr>processing := True\<rparr>,
                       threads := (threads sys)[i := (t, InBody)]\<rparr>)
         | (t, InBody) \<Rightarrow>
             Some (sys\<lparr>shared := (shared sys)\<lparr>processing := False\<rparr>,
                       threads := (threads sys)[i := (t, Finished)]\<rparr>)
         | (t, Finished) \<Rightarrow> None)
      else None)"

definition step :: "action \<Rightarrow> system \<Rightarrow> system option" where
  "step a sys =
     (case a of
        InputLine orc line \<Rightarrow>
          (if reading sys then
             (case handle_line orc line (shared sys) of
                Break \<Rightarrow> None
              | Crashed x s ev \<Rightarrow> None
              | Continue s ev t \<Rightarrow>
                  Some (sys\<lparr>shared := s, threads := threads sys @ spawn t,
                            reading := running s\<rparr>))
           else None)
      | WakeEvent \<Rightarrow>
          (case on_wake_detected (shared sys) of
             (ev, t) \<Rightarrow> Some (sys\<lparr>threads := threads sys @ spawn t\<rparr>))
      | ThreadStep i \<Rightarrow> thread_step i sys
      | Interrupt \<Rightarrow> Some (sys\<lparr>shared := fst (stop (shared sys))\<rparr>))"

fun exec :: "action list \<Rightarrow> system \<Rightarrow> system option" where
  "exec [] sys = Some sys"
| "exec (a # as) sys = (case step a sys of None \<Rightarrow> None | Some sys1 \<Rightarrow> exec as sys1)"

definition bodies_running :: "system \<Rightarrow> nat" where
  "bodies_running sys = length (filter (\<lambda>tp. snd tp = InBody) (threads sys))"

section \<open>Classes of events and example inputs\<close>

definition is_flag_event :: "event \<Rightarrow> bool" where
  "is_flag_event ev = (case ev of SetProcessing b \<Rightarrow> True | _ \<Rightarrow> False)"

definition is_playback_event :: "event \<Rightarrow> bool" where
  "is_playback_event ev =
     (case ev of Status st \<Rightarrow> st = Speaking | Popen c \<Rightarrow> True | NoPlayerWarning \<Rightarrow> True
      | StdinWrite b \<Rightarrow> True | _ \<Rightarrow> False)"

definition is_remote_call :: "event \<Rightarrow> bool" where
  "is_remote_call ev = (case ev of VoicePipeline w sid \<Rightarrow> True | _ \<Rightarrow> False)"

definition is_open_event :: "event \<Rightarrow> bool" where
  "is_open_event ev = (case ev of Popen c \<Rightarrow> True | NoPlayerWarning \<Rightarrow> True | _ \<Rightarrow> False)"

definition is_close_event :: "event \<Rightarrow> bool" where
  "is_close_event ev =
     (case ev of StdinClose \<Rightarrow> True | Wait n \<Rightarrow> True | Kill \<Rightarrow> True | _ \<Rightarrow> False)"

definition is_error_report :: "event \<Rightarrow> bool" where
  "is_error_report ev =
     (case ev of Status st \<Rightarrow> (case st of ErrorStatus x \<Rightarrow> True | _ \<Rightarrow> False)
      | Traceback \<Rightarrow> True | _ \<Rightarrow> False)"

text \<open>A voice-mode client that found \<^verbatim>\<open>ffplay\<close>, and a hub that answers without audio.\<close>

abbreviation demo_client :: client where
  "demo_client \<equiv>
     \<lparr>session_id = ''0123456789ab'', processing = False, running = True, text_mode = False,
      wake_model = None, wake_engine = None,
      player_cmd = [''ffplay'', ''-nodisp'', ''-autoexit'', ''-i'', ''pipe:0'',
                    ''-loglevel'', ''quiet'']\<rparr>"

abbreviation demo_env :: "bytes \<Rightarrow> hub_call \<Rightarrow> env" where
  "demo_env wav h \<equiv>
     \<lparr>mic_result = Inr wav, hub_voice = (\<lambda>w sid. h), hub_chat = (\<lambda>t. Inr ''ok''),
      popen_result = None, write_result = (\<lambda>n. None), close_result = None,
      wait_result = None\<rparr>"

text \<open>
  What the first chunk of a turn brings: the player, or the warning that there is none.
  A subprocess exists when \<^verbatim>\<open>Popen\<close> was called and did not raise.  Closing a
  sink is closing its stdin, waiting 30 seconds, and killing the process on a timeout.
\<close>

definition opener :: "client \<Rightarrow> event" where
  "opener s = (if player_cmd s = [] then NoPlayerWarning else Popen (player_cmd s))"

definition spawned :: "env \<Rightarrow> client \<Rightarrow> event list \<Rightarrow> bool" where
  "spawned e s evs = (Popen (player_cmd s) \<in> set evs \<and> popen_result e = None)"

definition closing :: "env \<Rightarrow> event list" where
  "closing e = StdinClose # Wait 30 # (if wait_result e = Some TimeoutExpired then [Kill] else [])"

text \<open>A hub call that returns normally as long as the chunk callback does.\<close>

primrec returns_if_undisturbed :: "hub_call \<Rightarrow> bool" where
  "returns_if_undisturbed (Returns t r) = True"
| "returns_if_undisturbed (Raises x) = False"
| "returns_if_undisturbed (Delivers chunk k) = returns_if_undisturbed (k None)"

definition is_resume_event :: "event \<Rightarrow> bool" where
  "is_resume_event ev = (case ev of EngineResume \<Rightarrow> True | _ \<Rightarrow> False)"

text \<open>The thread that a pass through the command loop started.\<close>

definition launched :: "outcome \<Rightarrow> target option" where
  "launched r = (case r of Continue s ev t \<Rightarrow> t | _ \<Rightarrow> None)"

text \<open>A client in wake word mode, and the same client while a turn is in flight.\<close>

abbreviation wake_client :: client where
  "wake_client \<equiv>
     demo_client\<lparr>wake_model := Some ''hey_jarvis'',
                 wake_engine := Some (OpenWakeWordEngine ''hey_jarvis'')\<rparr>"

abbreviation busy_client :: client where
  "busy_client \<equiv> wake_client\<lparr>processing := True\<rparr>"

text \<open>
  The capitalisations of a word: every way of replacing some of its lower case ASCII
  letters by the upper case letter.
\<close>

definition is_ascii_lower :: "char \<Rightarrow> bool" where
  "is_ascii_lower c = (let n = (of_char c :: nat) in 97 \<le> n \<and> n \<le> 122)"

definition upper_char :: "char \<Rightarrow> char" where
  "upper_char c = char_of ((of_char c :: nat) - 32)"

fun caps :: "string \<Rightarrow> string list" where
  "caps [] = [[]]"
| "caps (c # cs) =
     (if is_ascii_lower c
      then map ((#) c) (caps cs) @ map ((#) (upper_char c)) (caps cs)
      else map ((#) c) (caps cs))"

section \<open>The busy flag is released by every turn\<close>

lemma filter_none: "list_all Q xs \<Longrightarrow> (\<And>x. Q x \<Longrightarrow> \<not> P x) \<Longrightarrow> filter P xs = []"
  by (induction xs) auto

lemma on_chunk_playback: "list_all is_playback_event (snd (snd (on_chunk e s c l)))"
  by (auto simp: on_chunk_def open_on_first_def write_chunk_def start_player_def
      is_playback_event_def split: option.splits prod.splits sum.splits if_splits)

lemma run_hub_playback: "list_all is_playback_event (snd (snd (run_hub h e s l)))"
proof (induction h arbitrary: l)
  case (Delivers c k)
  show ?case
    using Delivers.IH on_chunk_playback [of e s c l]
    by (simp add: case_prod_unfold)
qed simp_all

lemma playback_not_flag: "is_playback_event x \<Longrightarrow> \<not> is_flag_event x"
  by (cases x) (simp_all add: is_playback_event_def is_flag_event_def)

lemma playback_not_remote: "is_playback_event x \<Longrightarrow> \<not> is_remote_call x"
  by (cases x) (simp_all add: is_playback_event_def is_remote_call_def)

lemma playback_not_close: "is_playback_event x \<Longrightarrow> \<not> is_close_event x"
  by (cases x) (simp_all add: is_playback_event_def is_close_event_def)

lemma playback_not_error: "is_playback_event x \<Longrightarrow> \<not> is_error_report x"
  by (cases x) (auto simp add: is_playback_event_def is_error_report_def)

lemma run_hub_flag: "filter is_flag_event (snd (snd (run_hub h e s l))) = []"
  by (rule filter_none [OF run_hub_playback playback_not_flag])

lemma close_player_flag: "filter is_flag_event (snd (close_player e l)) = []"
  by (simp add: close_player_def stdin_close_def wait_or_kill_def is_flag_event_def
      case_prod_unfold split: option.splits)

lemma run_pipeline_flag: "filter is_flag_event (snd (run_pipeline e s wav)) = []"
  by (simp add: run_pipeline_def print_result_def is_flag_event_def case_prod_unfold
      run_hub_flag close_player_flag split: option.splits sum.splits)

lemma voice_body_flag: "filter is_flag_event (snd (voice_body e s)) = []"
  by (simp add: voice_body_def is_flag_event_def case_prod_unfold run_pipeline_flag
      split: sum.splits)

lemma text_body_flag: "filter is_flag_event (snd (text_body e t)) = []"
  by (simp add: text_body_def is_flag_event_def split: sum.splits)

lemma handler_flag:
  "filter is_flag_event (voice_handler r) = []"
  "filter is_flag_event (text_handler r) = []"
  by (simp_all add: voice_handler_def text_handler_def is_flag_event_def split: option.splits)

lemma flag_prompt: "is_flag_event (SetProcessing b)" "\<not> is_flag_event (prompt s)"
  by (simp_all add: is_flag_event_def prompt_def)

text \<open>
  C1.  Whatever the microphone, the hub and the player do (every environment, so every
  combination of exceptions), a voice turn and a text turn end with
  \<^verbatim>\<open>self._processing\<close> false; the flag is written exactly twice, true when the
  turn starts and false once, after the turn body and its error handler and just before the
  prompt.
\<close>

theorem guard_release_total:
  "processing (fst (run_voice e s)) = False
   \<and> filter is_flag_event (snd (run_voice e s)) = [SetProcessing True, SetProcessing False]
   \<and> (\<exists>body. snd (run_voice e s)
          = SetProcessing True # body @ [SetProcessing False, prompt (fst (run_voice e s))])
   \<and> processing (fst (run_text e t s)) = False
   \<and> filter is_flag_event (snd (run_text e t s)) = [SetProcessing True, SetProcessing False]
   \<and> (\<exists>body. snd (run_text e t s)
          = SetProcessing True # body @ [SetProcessing False, prompt (fst (run_text e t s))])"
  by (simp add: run_voice_def run_text_def case_prod_unfold voice_body_flag text_body_flag
      handler_flag flag_prompt)

section \<open>The short capture threshold\<close>

lemma run_hub_no_remote: "filter is_remote_call (snd (snd (run_hub h e s l))) = []"
  by (rule filter_none [OF run_hub_playback playback_not_remote])

lemma close_player_no_remote: "filter is_remote_call (snd (close_player e l)) = []"
  by (simp add: close_player_def stdin_close_def wait_or_kill_def is_remote_call_def
      case_prod_unfold split: option.splits)

lemma print_result_no_remote: "filter is_remote_call (print_result t r) = []"
  by (simp add: print_result_def is_remote_call_def)

lemma run_pipeline_remote:
  "filter is_remote_call (snd (run_pipeline e s wav)) = [VoicePipeline wav (session_id s)]"
  by (simp add: run_pipeline_def case_prod_unfold run_hub_no_remote close_player_no_remote
      print_result_no_remote is_remote_call_def split: option.splits sum.splits)

text \<open>
  C2.  When the microphone returns a WAV of fewer than 2500 bytes, the turn prints
  "Nothing captured", releases the flag and prompts, and the voice pipeline of the hub
  is not called; when it returns 2500 bytes or more, the voice pipeline is called (once,
  with that WAV and the session identifier).
\<close>

theorem short_capture_threshold:
  assumes "mic_result e = Inr wav"
  shows "if length wav < 2500
         then snd (run_voice e s) =
                [SetProcessing True, Status Listening, MicRecord, Status NothingCaptured,
                 SetProcessing False, prompt (s\<lparr>processing := False\<rparr>)]
              \<and> filter is_remote_call (snd (run_voice e s)) = []
         else filter is_remote_call (snd (run_voice e s)) = [VoicePipeline wav (session_id s)]"
  using assms
  by (simp add: run_voice_def voice_body_def voice_handler_def case_prod_unfold
      run_pipeline_remote is_remote_call_def prompt_def split: option.splits)

theorem short_capture_threshold_witness:
  "filter is_remote_call
     (snd (run_voice (demo_env (replicate 2499 0) (Returns (Some ''hi'') ''Done.'')) demo_client))
   = []
   \<and> filter is_remote_call
     (snd (run_voice (demo_env (replicate 2500 0) (Returns (Some ''hi'') ''Done.'')) demo_client))
   = [VoicePipeline (replicate 2500 0) ''0123456789ab'']"
  using short_capture_threshold
          [of "demo_env (replicate 2499 0) (Returns (Some ''hi'') ''Done.'')"
              "replicate 2499 0" demo_client]
        short_capture_threshold
          [of "demo_env (replicate 2500 0) (Returns (Some ''hi'') ''Done.'')"
              "replicate 2500 0" demo_client]
  by (simp add: is_remote_call_def prompt_def)

section \<open>The playback sink\<close>

lemma open_close_disjoint: "is_open_event x \<Longrightarrow> \<not> is_close_event x"
  by (cases x) (simp_all add: is_open_event_def is_close_event_def)

lemma on_chunk_later:
  assumes "\<not> first_chunk l"
  shows "\<not> first_chunk (fst (snd (on_chunk e s c l)))"
    and "(player_proc (fst (snd (on_chunk e s c l))) = None) = (player_proc l = None)"
    and "filter is_open_event (snd (snd (on_chunk e s c l))) = []"
  using assms
  by (auto simp: on_chunk_def open_on_first_def write_chunk_def is_open_event_def
      split: option.splits)

lemma run_hub_later:
  "\<not> first_chunk l \<Longrightarrow>
   \<not> first_chunk (fst (snd (run_hub h e s l)))
   \<and> (player_proc (fst (snd (run_hub h e s l))) = None) = (player_proc l = None)
   \<and> filter is_open_event (snd (snd (run_hub h e s l))) = []"
proof (induction h arbitrary: l)
  case (Delivers c k)
  note a = on_chunk_later [OF Delivers.prems, of e s c]
  note b = Delivers.IH [OF rangeI a(1), of "fst (on_chunk e s c l)"]
  show ?case using a b by (simp add: case_prod_unfold)
qed simp_all

lemma on_chunk_first:
  assumes "first_chunk l" "player_proc l = None"
  shows "\<not> first_chunk (fst (snd (on_chunk e s c l)))"
    and "(player_proc (fst (snd (on_chunk e s c l))) \<noteq> None)
         = (player_cmd s \<noteq> [] \<and> popen_result e = None)"
    and "\<exists>rest. snd (snd (on_chunk e s c l)) =
           [Status Speaking, if player_cmd s = [] then NoPlayerWarning else Popen (player_cmd s)]
           @ rest \<and> filter is_open_event rest = []"
  using assms
  by (auto simp: on_chunk_def open_on_first_def write_chunk_def start_player_def
      is_open_event_def split: option.splits)

lemma run_hub_fresh_open_events:
  "filter is_open_event (snd (snd (run_hub h e s fresh_locals)))
   = (case h of Delivers c k \<Rightarrow> [opener s] | _ \<Rightarrow> [])"
proof (cases h)
  case (Delivers c k)
  have f: "first_chunk fresh_locals" "player_proc fresh_locals = None"
    by (simp_all add: fresh_locals_def)
  note a = on_chunk_first [OF f, of e s c]
  note b = run_hub_later [OF a(1), of "k (fst (on_chunk e s c fresh_locals))" e s]
  from a(3) obtain rest where
    r: "snd (snd (on_chunk e s c fresh_locals)) = [Status Speaking, opener s] @ rest"
       "filter is_open_event rest = []"
    by (auto simp: opener_def)
  show ?thesis using Delivers b r
    by (simp add: case_prod_unfold is_open_event_def opener_def)
qed simp_all

lemma run_hub_fresh_opened:
  "(player_proc (fst (snd (run_hub h e s fresh_locals))) \<noteq> None)
   = ((\<exists>c k. h = Delivers c k) \<and> player_cmd s \<noteq> [] \<and> popen_result e = None)"
proof (cases h)
  case (Delivers c k)
  have f: "first_chunk fresh_locals" "player_proc fresh_locals = None"
    by (simp_all add: fresh_locals_def)
  note a = on_chunk_first [OF f, of e s c]
  note b = run_hub_later [OF a(1), of "k (fst (on_chunk e s c fresh_locals))" e s]
  show ?thesis using Delivers a(2) b
    by (simp add: case_prod_unfold)
qed (simp_all add: fresh_locals_def)

lemma popen_in_filter: "(Popen c \<in> set xs) = (Popen c \<in> set (filter is_open_event xs))"
  by (auto simp: is_open_event_def)

lemma run_hub_fresh_popen:
  "(Popen (player_cmd s) \<in> set (snd (snd (run_hub h e s fresh_locals))))
   = ((\<exists>c k. h = Delivers c k) \<and> player_cmd s \<noteq> [])"
  by (subst popen_in_filter) (auto simp: run_hub_fresh_open_events opener_def split: hub_call.splits)

lemma close_player_events:
  "snd (close_player e l) =
     (if player_proc l = None then []
      else StdinClose # Wait 30 # (if wait_result e = Some TimeoutExpired then [Kill] else []))"
  by (simp add: close_player_def wait_or_kill_def stdin_close_def case_prod_unfold
      split: option.splits)

lemma print_result_plain:
  "filter is_close_event (print_result t r) = []"
  "filter is_playback_event (print_result t r) = []"
  "filter is_open_event (print_result t r) = []"
  by (simp_all add: print_result_def is_close_event_def is_playback_event_def is_open_event_def)

lemma run_pipeline_shape:
  "\<exists>post. snd (run_pipeline e s wav) =
     [Status Thinking, VoicePipeline wav (session_id s)]
     @ snd (snd (run_hub (hub_voice e wav (session_id s)) e s fresh_locals))
     @ snd (close_player e (fst (snd (run_hub (hub_voice e wav (session_id s)) e s fresh_locals))))
     @ post
     \<and> filter is_close_event post = [] \<and> filter is_playback_event post = []
     \<and> filter is_open_event post = []"
  by (simp add: run_pipeline_def case_prod_unfold print_result_plain
      split: option.splits sum.splits)

lemma no_popen: "filter is_open_event xs = [] \<Longrightarrow> Popen c \<notin> set xs"
  by (subst popen_in_filter) simp

lemma closing_no_popen: "Popen c \<notin> set (snd (close_player e l))"
  by (simp add: close_player_events)

lemma run_pipeline_spawned:
  "spawned e s (snd (run_pipeline e s wav))
   = (player_proc (fst (snd (run_hub (hub_voice e wav (session_id s)) e s fresh_locals))) \<noteq> None)"
proof -
  obtain post where p:
    "snd (run_pipeline e s wav) =
       [Status Thinking, VoicePipeline wav (session_id s)]
       @ snd (snd (run_hub (hub_voice e wav (session_id s)) e s fresh_locals))
       @ snd (close_player e (fst (snd (run_hub (hub_voice e wav (session_id s)) e s fresh_locals))))
       @ post"
    "filter is_open_event post = []"
    using run_pipeline_shape [of e s wav] by blast
  have "(Popen (player_cmd s) \<in> set (snd (run_pipeline e s wav)))
        = (Popen (player_cmd s) \<in> set (snd (snd (run_hub (hub_voice e wav (session_id s)) e s fresh_locals))))"
    using no_popen [OF p(2)] closing_no_popen by (simp add: p(1))
  then show ?thesis
    using run_hub_fresh_opened [of "hub_voice e wav (session_id s)" e s]
    by (simp only: spawned_def run_hub_fresh_popen conj_assoc)
qed

text \<open>
  C3.  For every behaviour of the hub (it returns or raises, after any number of chunks)
  and of the player, the events of \<^verbatim>\<open>_run_pipeline\<close> are: events without any
  close action; then, exactly when a player subprocess was spawned, the closing sequence
  (stdin closed, a wait of 30, and a kill exactly when the wait timed out), once; then
  events that neither close nor touch the player.
\<close>

theorem sink_closed_on_every_exit:
  "\<exists>pre post.
      snd (run_pipeline e s wav)
        = pre @ (if spawned e s (snd (run_pipeline e s wav)) then closing e else []) @ post
      \<and> filter is_close_event pre = []
      \<and> filter is_close_event post = [] \<and> filter is_playback_event post = []"
proof -
  obtain post where p:
    "snd (run_pipeline e s wav) =
       [Status Thinking, VoicePipeline wav (session_id s)]
       @ snd (snd (run_hub (hub_voice e wav (session_id s)) e s fresh_locals))
       @ snd (close_player e (fst (snd (run_hub (hub_voice e wav (session_id s)) e s fresh_locals))))
       @ post"
    "filter is_close_event post = []" "filter is_playback_event post = []"
    using run_pipeline_shape [of e s wav] by blast
  let ?pre = "[Status Thinking, VoicePipeline wav (session_id s)]
       @ snd (snd (run_hub (hub_voice e wav (session_id s)) e s fresh_locals))"
  have pre: "filter is_close_event ?pre = []"
    by (simp add: filter_none [OF run_hub_playback playback_not_close] is_close_event_def)
  have mid: "snd (close_player e (fst (snd (run_hub (hub_voice e wav (session_id s)) e s fresh_locals))))
      = (if spawned e s (snd (run_pipeline e s wav)) then closing e else [])"
    by (simp add: run_pipeline_spawned close_player_events closing_def)
  have "snd (run_pipeline e s wav)
        = ?pre @ (if spawned e s (snd (run_pipeline e s wav)) then closing e else []) @ post"
    by (subst p(1)) (simp only: mid append_assoc)
  with pre p(2,3) show ?thesis by blast
qed

theorem sink_closed_on_every_exit_witness:
  "snd (run_pipeline
      ((demo_env (replicate 50000 0)
          (Delivers [1, 2] (\<lambda>r. Raises (OtherError ''connection lost''))))
        \<lparr>wait_result := Some TimeoutExpired\<rparr>)
      demo_client (replicate 50000 0))
   = [Status Thinking, VoicePipeline (replicate 50000 0) ''0123456789ab'', Status Speaking,
      Popen (player_cmd demo_client), StdinWrite [1, 2], StdinClose, Wait 30, Kill]"
  using sink_closed_on_every_exit
    [of "(demo_env (replicate 50000 0)
          (Delivers [1, 2] (\<lambda>r. Raises (OtherError ''connection lost''))))
        \<lparr>wait_result := Some TimeoutExpired\<rparr>" demo_client "replicate 50000 0"]
  by (simp add: run_pipeline_def fresh_locals_def on_chunk_def open_on_first_def start_player_def
      write_chunk_def close_player_def wait_or_kill_def stdin_close_def)

lemma run_pipeline_open_events:
  "filter is_open_event (snd (run_pipeline e s wav))
   = (case hub_voice e wav (session_id s) of Delivers c k \<Rightarrow> [opener s] | _ \<Rightarrow> [])"
proof -
  obtain post where p:
    "snd (run_pipeline e s wav) =
       [Status Thinking, VoicePipeline wav (session_id s)]
       @ snd (snd (run_hub (hub_voice e wav (session_id s)) e s fresh_locals))
       @ snd (close_player e (fst (snd (run_hub (hub_voice e wav (session_id s)) e s fresh_locals))))
       @ post"
    "filter is_open_event post = []"
    using run_pipeline_shape [of e s wav] by blast
  have c: "filter is_open_event (snd (close_player e l)) = []" for l
    by (simp add: close_player_events is_open_event_def)
  show ?thesis
    by (simp add: p c run_hub_fresh_open_events is_open_event_def)
qed

lemma run_pipeline_first_chunk:
  assumes "hub_voice e wav (session_id s) = Delivers c k"
  shows "take 4 (snd (run_pipeline e s wav))
         = [Status Thinking, VoicePipeline wav (session_id s), Status Speaking, opener s]"
proof -
  have f: "first_chunk fresh_locals" "player_proc fresh_locals = None"
    by (simp_all add: fresh_locals_def)
  from on_chunk_first(3) [OF f, of e s c] obtain rest where
    r: "snd (snd (on_chunk e s c fresh_locals)) = [Status Speaking, opener s] @ rest"
    by (auto simp: opener_def)
  obtain post where p:
    "snd (run_pipeline e s wav) =
       [Status Thinking, VoicePipeline wav (session_id s)]
       @ snd (snd (run_hub (hub_voice e wav (session_id s)) e s fresh_locals))
       @ snd (close_player e (fst (snd (run_hub (hub_voice e wav (session_id s)) e s fresh_locals))))
       @ post"
    using run_pipeline_shape [of e s wav] by blast
  show ?thesis
    by (simp add: p assms case_prod_unfold r)
qed

lemma opener_processing: "opener (s\<lparr>processing := b\<rparr>) = opener s"
  by (simp add: opener_def)

lemma voice_open_events:
  "filter is_open_event (snd (run_voice e s))
   = (case mic_result e of
        Inl x \<Rightarrow> []
      | Inr wav \<Rightarrow>
          if length wav < 2500 then []
          else (case hub_voice e wav (session_id s) of Delivers c k \<Rightarrow> [opener s] | _ \<Rightarrow> []))"
  by (simp add: run_voice_def voice_body_def voice_handler_def case_prod_unfold
      run_pipeline_open_events is_open_event_def prompt_def opener_processing
      split: sum.splits option.splits hub_call.splits)

text \<open>
  C5.  The player is started (or, when no player command was found, the warning is printed)
  by the first chunk and by nothing else.  In a whole voice turn this happens once when the
  capture is long enough and the hub delivers at least one chunk, and never otherwise; in
  \<^verbatim>\<open>_run_pipeline\<close> it comes after the status line and the call of the hub, right
  after the "Speaking" status of the first chunk, and a call that delivers no chunk
  starts no player and prints no warning.
\<close>

theorem sink_opened_lazily:
  "filter is_open_event (snd (run_voice e s))
   = (case mic_result e of
        Inl x \<Rightarrow> []
      | Inr wav \<Rightarrow>
          if length wav < 2500 then []
          else (case hub_voice e wav (session_id s) of Delivers c k \<Rightarrow> [opener s] | _ \<Rightarrow> []))
   \<and> (case hub_voice e wav (session_id s) of
         Delivers c k \<Rightarrow>
           filter is_open_event (snd (run_pipeline e s wav)) = [opener s]
           \<and> take 4 (snd (run_pipeline e s wav))
               = [Status Thinking, VoicePipeline wav (session_id s), Status Speaking, opener s]
       | _ \<Rightarrow> filter is_open_event (snd (run_pipeline e s wav)) = [])"
  by (simp add: voice_open_events run_pipeline_open_events run_pipeline_first_chunk
      split: hub_call.splits)

theorem sink_opened_lazily_witness:
  "filter is_open_event
     (snd (run_pipeline (demo_env (replicate 50000 0) (Returns None ''(no speech)''))
        demo_client (replicate 50000 0))) = []
   \<and> filter is_open_event
     (snd (run_pipeline (demo_env (replicate 50000 0) (Delivers [7] (\<lambda>r. Returns (Some ''hi'') ''Done.'')))
        demo_client (replicate 50000 0))) = [Popen (player_cmd demo_client)]"
  using sink_opened_lazily
          [of "demo_env (replicate 50000 0) (Returns None ''(no speech)'')" demo_client
              "replicate 50000 0"]
        sink_opened_lazily
          [of "demo_env (replicate 50000 0) (Delivers [7] (\<lambda>r. Returns (Some ''hi'') ''Done.''))"
              demo_client "replicate 50000 0"]
  by (simp add: opener_def)

section \<open>Broken pipes\<close>

lemma write_chunk_closed:
  "player_proc l = Some p \<Longrightarrow> stdin_closed p \<Longrightarrow> write_chunk e c l = (None, l, [])"
  by (simp add: write_chunk_def)

lemma write_chunk_broken_pipe:
  "player_proc l = Some p \<Longrightarrow> \<not> stdin_closed p
   \<Longrightarrow> write_result e (nwritten p) = Some BrokenPipeError
   \<Longrightarrow> write_chunk e c l
       = (None, l\<lparr>player_proc := Some (p\<lparr>nwritten := Suc (nwritten p)\<rparr>)\<rparr>, [StdinWrite c])"
  by (simp add: write_chunk_def)

lemma on_chunk_quiet:
  assumes "popen_result e = None"
    and "\<forall>n. write_result e n = None \<or> write_result e n = Some BrokenPipeError"
  shows "fst (on_chunk e s c l) = None"
proof -
  have w: "fst (write_chunk e c l1) = None" for l1
  proof (cases "player_proc l1")
    case (Some p)
    from assms(2) have "write_result e (nwritten p) = None
        \<or> write_result e (nwritten p) = Some BrokenPipeError" by (rule spec)
    with Some show ?thesis by (auto simp: write_chunk_def)
  qed (simp add: write_chunk_def)
  show ?thesis
    using assms(1) w
    by (simp add: on_chunk_def open_on_first_def start_player_def case_prod_unfold
        split: option.splits)
qed

lemma run_hub_quiet:
  assumes "popen_result e = None"
    and "\<forall>n. write_result e n = None \<or> write_result e n = Some BrokenPipeError"
  shows "returns_if_undisturbed h \<Longrightarrow> \<exists>t r. fst (run_hub h e s l) = Inr (t, r)"
proof (induction h arbitrary: l)
  case (Delivers c k)
  have q: "fst (on_chunk e s c l) = None" by (rule on_chunk_quiet [OF assms])
  from Delivers.prems have "returns_if_undisturbed (k None)" by simp
  from Delivers.IH [OF rangeI this, of "fst (snd (on_chunk e s c l))"]
  show ?case by (simp add: case_prod_unfold q)
qed simp_all

lemma close_player_quiet:
  "wait_result e = None \<or> wait_result e = Some TimeoutExpired \<Longrightarrow> fst (close_player e l) = None"
  by (auto simp: close_player_def wait_or_kill_def case_prod_unfold split: option.splits)

lemma run_pipeline_quiet:
  assumes "popen_result e = None"
    and "\<forall>n. write_result e n = None \<or> write_result e n = Some BrokenPipeError"
    and "wait_result e = None \<or> wait_result e = Some TimeoutExpired"
    and "returns_if_undisturbed (hub_voice e wav (session_id s))"
  shows "fst (run_pipeline e s wav) = None"
proof -
  from run_hub_quiet [OF assms(1,2,4), of s fresh_locals] obtain t r where
    "fst (run_hub (hub_voice e wav (session_id s)) e s fresh_locals) = Inr (t, r)" by blast
  then show ?thesis
    using close_player_quiet [OF assms(3)]
    by (simp add: run_pipeline_def case_prod_unfold split: option.splits)
qed

lemma run_voice_reports:
  "filter is_error_report (snd (run_voice e s))
   = voice_handler (fst (voice_body e (s\<lparr>processing := True\<rparr>)))"
proof -
  have h: "filter is_error_report (snd (snd (run_hub h e s1 l))) = []" for h s1 l
    by (rule filter_none [OF run_hub_playback playback_not_error])
  have c: "filter is_error_report (snd (close_player e l)) = []" for l
    by (simp add: close_player_events is_error_report_def)
  have p: "filter is_error_report (snd (run_pipeline e s1 wav)) = []" for s1 wav
    by (simp add: run_pipeline_def case_prod_unfold h c print_result_def is_error_report_def
        split: option.splits sum.splits)
  have b: "filter is_error_report (snd (voice_body e s1)) = []" for s1
    by (simp add: voice_body_def case_prod_unfold p is_error_report_def split: sum.splits)
  have v: "filter is_error_report (voice_handler r) = voice_handler r" for r
    by (simp add: voice_handler_def is_error_report_def split: option.splits)
  show ?thesis
    by (simp add: run_voice_def case_prod_unfold b v is_error_report_def prompt_def)
qed

text \<open>
  C6.  With a player that starts and a pipe whose writes either succeed or raise
  \<^verbatim>\<open>BrokenPipeError\<close>, no exception leaves the chunk callback, whatever the chunk and
  the state of the turn; a chunk for a player whose stdin is closed is dropped without a
  write and without an exception; and a turn whose capture succeeded, whose hub call returns
  when its callback does and whose player exits or is killed reports no error.
\<close>

theorem broken_pipe_swallowed:
  assumes "popen_result e = None"
    and "\<forall>n. write_result e n = None \<or> write_result e n = Some BrokenPipeError"
  shows "fst (on_chunk e s c l) = None
     \<and> (\<not> first_chunk l \<and> player_proc l = Some p \<and> stdin_closed p
          \<longrightarrow> on_chunk e s c l = (None, l, []))
     \<and> (mic_result e = Inr wav \<and> returns_if_undisturbed (hub_voice e wav (session_id s))
          \<and> (wait_result e = None \<or> wait_result e = Some TimeoutExpired)
          \<longrightarrow> filter is_error_report (snd (run_voice e s)) = [])"
proof (intro conjI impI)
  show "fst (on_chunk e s c l) = None" by (rule on_chunk_quiet [OF assms])
next
  assume "\<not> first_chunk l \<and> player_proc l = Some p \<and> stdin_closed p"
  then show "on_chunk e s c l = (None, l, [])"
    by (simp add: on_chunk_def open_on_first_def write_chunk_closed)
next
  assume a: "mic_result e = Inr wav \<and> returns_if_undisturbed (hub_voice e wav (session_id s))
          \<and> (wait_result e = None \<or> wait_result e = Some TimeoutExpired)"
  then have "fst (run_pipeline e (s\<lparr>processing := True\<rparr>) wav) = None"
    using run_pipeline_quiet [OF assms, of wav "s\<lparr>processing := True\<rparr>"] by simp
  with a show "filter is_error_report (snd (run_voice e s)) = []"
    by (simp add: run_voice_reports voice_body_def voice_handler_def case_prod_unfold)
qed


theorem broken_pipe_swallowed_witness:
  "fst (on_chunk
         ((demo_env (replicate 50000 0)
             (Delivers [1] (\<lambda>r. Delivers [2] (\<lambda>r. Returns (Some ''hi'') ''Done.''))))
          \<lparr>write_result := (\<lambda>n. Some BrokenPipeError)\<rparr>)
         demo_client [1] fresh_locals) = None
   \<and> on_chunk
         ((demo_env (replicate 50000 0)
             (Delivers [1] (\<lambda>r. Delivers [2] (\<lambda>r. Returns (Some ''hi'') ''Done.''))))
          \<lparr>write_result := (\<lambda>n. Some BrokenPipeError)\<rparr>)
         demo_client [1]
         \<lparr>player_proc = Some \<lparr>stdin_closed = True, nwritten = 1\<rparr>, first_chunk = False\<rparr>
       = (None, \<lparr>player_proc = Some \<lparr>stdin_closed = True, nwritten = 1\<rparr>, first_chunk = False\<rparr>, [])
   \<and> filter is_error_report
        (snd (run_voice
         ((demo_env (replicate 50000 0)
             (Delivers [1] (\<lambda>r. Delivers [2] (\<lambda>r. Returns (Some ''hi'') ''Done.''))))
          \<lparr>write_result := (\<lambda>n. Some BrokenPipeError)\<rparr>)
         demo_client)) = []"
  using broken_pipe_swallowed
    [where e = "(demo_env (replicate 50000 0)
             (Delivers [1] (\<lambda>r. Delivers [2] (\<lambda>r. Returns (Some ''hi'') ''Done.''))))
          \<lparr>write_result := (\<lambda>n. Some BrokenPipeError)\<rparr>"
       and s = demo_client and c = "[1]" and wav = "replicate 50000 0"
       and l = "\<lparr>player_proc = Some \<lparr>stdin_closed = True, nwritten = 1\<rparr>, first_chunk = False\<rparr>"
       and p = "\<lparr>stdin_closed = True, nwritten = 1\<rparr>"]
    broken_pipe_swallowed
    [where e = "(demo_env (replicate 50000 0)
             (Delivers [1] (\<lambda>r. Delivers [2] (\<lambda>r. Returns (Some ''hi'') ''Done.''))))
          \<lparr>write_result := (\<lambda>n. Some BrokenPipeError)\<rparr>"
       and s = demo_client and c = "[1]" and wav = "replicate 50000 0"
       and l = fresh_locals]
  by simp

section \<open>Wake events\<close>

lemma playback_not_resume: "is_playback_event x \<Longrightarrow> \<not> is_resume_event x"
  by (cases x) (simp_all add: is_playback_event_def is_resume_event_def)

lemma run_voice_no_resume: "filter is_resume_event (snd (run_voice e s)) = []"
proof -
  have h: "filter is_resume_event (snd (snd (run_hub h e s1 l))) = []" for h s1 l
    by (rule filter_none [OF run_hub_playback playback_not_resume])
  have c: "filter is_resume_event (snd (close_player e l)) = []" for l
    by (simp add: close_player_events is_resume_event_def)
  have p: "filter is_resume_event (snd (run_pipeline e s1 wav)) = []" for s1 wav
    by (simp add: run_pipeline_def case_prod_unfold h c print_result_def is_resume_event_def
        split: option.splits sum.splits)
  have b: "filter is_resume_event (snd (voice_body e s1)) = []" for s1
    by (simp add: voice_body_def case_prod_unfold p is_resume_event_def split: sum.splits)
  have v: "filter is_resume_event (voice_handler r) = []" for r
    by (simp add: voice_handler_def is_resume_event_def split: option.splits)
  show ?thesis
    by (simp add: run_voice_def case_prod_unfold b v is_resume_event_def prompt_def)
qed

lemma run_text_no_resume: "filter is_resume_event (snd (run_text e t s)) = []"
  by (simp add: run_text_def text_body_def text_handler_def is_resume_event_def prompt_def
      split: sum.splits option.splits)

lemma run_voice_state: "fst (run_voice e s) = s\<lparr>processing := False\<rparr>"
  by (simp add: run_voice_def case_prod_unfold)

text \<open>
  C7.  With the wake word engine in place: a wake event that finds the flag set resumes
  the engine at once, starts no thread and leaves the client and the running threads as
  they were, and a turn started from the command loop (voice or text) never resumes the
  engine, so nothing is resumed for that event later.  A wake event that finds the flag
  clear resumes nothing itself and starts one thread, which runs the voice turn and then
  resumes the engine, once and as its last action.
\<close>

theorem wake_event_resume:
  assumes "wake_engine s = Some g"
  shows "(processing s \<longrightarrow>
            on_wake_detected s = ([EngineResume], None)
            \<and> (shared sys = s \<longrightarrow> step WakeEvent sys = Some sys))
       \<and> filter is_resume_event (snd (run_target e RunVoice s1)) = []
       \<and> filter is_resume_event (snd (run_target e (RunText t) s1)) = []
       \<and> (\<not> processing s \<longrightarrow>
            on_wake_detected s = ([], Some WakeRun)
            \<and> snd (run_target e WakeRun s) = snd (run_voice e s) @ [EngineResume]
            \<and> filter is_resume_event (snd (run_target e WakeRun s)) = [EngineResume])"
  using assms
  by (auto simp: on_wake_detected_def resume_engine_def step_def spawn_def run_target_def
      run_voice_no_resume run_text_no_resume run_voice_state case_prod_unfold is_resume_event_def)

theorem wake_event_resume_witness:
  "on_wake_detected busy_client = ([EngineResume], None)
   \<and> step WakeEvent \<lparr>shared = busy_client, threads = [(RunVoice, InBody)], reading = True\<rparr>
       = Some \<lparr>shared = busy_client, threads = [(RunVoice, InBody)], reading = True\<rparr>
   \<and> on_wake_detected wake_client = ([], Some WakeRun)
   \<and> filter is_resume_event
        (snd (run_target (demo_env (replicate 50000 0) (Returns (Some ''hi'') ''Done.''))
           WakeRun wake_client)) = [EngineResume]"
  using wake_event_resume
    [where s = busy_client and g = "OpenWakeWordEngine ''hey_jarvis''"
       and sys = "\<lparr>shared = busy_client, threads = [(RunVoice, InBody)], reading = True\<rparr>"]
    wake_event_resume
    [where s = wake_client and g = "OpenWakeWordEngine ''hey_jarvis''"
       and e = "demo_env (replicate 50000 0) (Returns (Some ''hi'') ''Done.'')"]
  by (simp add: is_resume_event_def run_voice_no_resume)

section \<open>A turn entered while the flag is set\<close>

text \<open>
  The test of the flag is made by the one who starts a thread: while the flag is set,
  neither a line of the command loop nor a wake event starts one.  \<^verbatim>\<open>_run_voice\<close>
  itself makes no test: it does the same whatever the flag was on entry.
\<close>

lemma handle_line_busy: "processing s \<Longrightarrow> launched (handle_line orc line s) = None"
  by (simp add: handle_line_def launched_def do_reset_def Let_def split: option.splits)

lemma run_voice_flag_on_entry:
  "run_voice e (s\<lparr>processing := b\<rparr>) = run_voice e s
   \<and> take 3 (snd (run_voice e s)) = [SetProcessing True, Status Listening, MicRecord]
   \<and> (processing s \<longrightarrow>
        launched (handle_line orc line s) = None \<and> snd (on_wake_detected s) = None)"
  by (auto simp: run_voice_def voice_body_def case_prod_unfold handle_line_busy
      on_wake_detected_def split: sum.splits)

text \<open>
  C9.  Enter is read and a wake event arrives before the thread started for Enter has run
  its first statement; that thread then sets the flag.  The thread started for the wake
  event now enters \<^verbatim>\<open>_run_voice\<close> with the flag already set, and its turn is not
  a no-op: it records from the microphone and calls the voice pipeline of the hub.
\<close>

theorem busy_turn_still_runs:
  "exec [InputLine \<lparr>fresh_uuid = 0, reset_result = None\<rparr> '''', WakeEvent, ThreadStep 0]
     \<lparr>shared = wake_client, threads = [], reading = True\<rparr>
   = Some \<lparr>shared = busy_client, threads = [(RunVoice, InBody), (WakeRun, Spawned)],
            reading = True\<rparr>
   \<and> processing busy_client
   \<and> MicRecord \<in> set (snd (run_voice
        (demo_env (replicate 50000 0) (Returns (Some ''hi'') ''Done.'')) busy_client))
   \<and> VoicePipeline (replicate 50000 0) ''0123456789ab'' \<in> set (snd (run_voice
        (demo_env (replicate 50000 0) (Returns (Some ''hi'') ''Done.'')) busy_client))
   \<and> snd (run_target (demo_env (replicate 50000 0) (Returns (Some ''hi'') ''Done.''))
          WakeRun busy_client)
     = [SetProcessing True, Status Listening, MicRecord, Status Thinking,
        VoicePipeline (replicate 50000 0) ''0123456789ab'', PrintExchange ''hi'' ''Done.'',
        SetProcessing False, Prompt WakePrompt, EngineResume]"
  by (simp add: step_def handle_line_def py_strip_def py_lower_def dispatch_plain_def spawn_def
      on_wake_detected_def thread_step_def run_target_def resume_engine_def
      run_voice_def voice_body_def voice_handler_def run_pipeline_def close_player_def
      fresh_locals_def print_result_def truthy_def prompt_def)

section \<open>Two triggers in a row\<close>

text \<open>
  C4.  The flag is tested by the one who starts a thread and set by the started thread.
  When Enter is read and a wake event arrives before the first thread has run its first
  statement, both find the flag clear, two threads are started and both are inside their
  turn body at the same time.  When the first thread sets the flag before the wake event,
  the event starts nothing.
\<close>

theorem two_turns_overlap:
  "exec [InputLine \<lparr>fresh_uuid = 0, reset_result = None\<rparr> '''', WakeEvent,
         ThreadStep 0, ThreadStep 1]
     \<lparr>shared = wake_client, threads = [], reading = True\<rparr>
   = Some \<lparr>shared = busy_client, threads = [(RunVoice, InBody), (WakeRun, InBody)],
            reading = True\<rparr>
   \<and> map_option bodies_running
       (exec [InputLine \<lparr>fresh_uuid = 0, reset_result = None\<rparr> '''', WakeEvent,
              ThreadStep 0, ThreadStep 1]
          \<lparr>shared = wake_client, threads = [], reading = True\<rparr>) = Some 2
   \<and> exec [InputLine \<lparr>fresh_uuid = 0, reset_result = None\<rparr> '''', ThreadStep 0, WakeEvent]
        \<lparr>shared = wake_client, threads = [], reading = True\<rparr>
      = Some \<lparr>shared = busy_client, threads = [(RunVoice, InBody)], reading = True\<rparr>"
  by (simp add: step_def handle_line_def py_strip_def py_lower_def dispatch_plain_def spawn_def
      on_wake_detected_def thread_step_def bodies_running_def resume_engine_def)

section \<open>Session identifiers\<close>

lemma hex_of_numeral:
  "hex_of (numeral k) n = hex_of (pred_numeral k) (n div 16) @ [hexdigit n]"
proof -
  have "hex_of (Suc (pred_numeral k)) n = hex_of (pred_numeral k) (n div 16) @ [hexdigit n]"
    by (rule hex_of.simps)
  then show ?thesis by (simp only: numeral_eq_Suc [symmetric])
qed

lemma length_hex_of: "length (hex_of k n) = k"
  by (induction k arbitrary: n) simp_all

lemma hexdigit_mem: "hexdigit n \<in> set ''0123456789abcdef''"
proof -
  have "n mod 16 < length ''0123456789abcdef''" by simp
  then show ?thesis unfolding hexdigit_def by (rule nth_mem)
qed

lemma set_hex_of: "set (hex_of k n) \<subseteq> set ''0123456789abcdef''"
proof (induction k arbitrary: n)
  case (Suc k)
  show ?case using Suc [of "n div 16"] hexdigit_mem [of n] by simp
qed simp

lemma hexdigit_eq_iff: "(hexdigit a = hexdigit b) = (a mod 16 = b mod 16)"
proof -
  have d: "distinct ''0123456789abcdef''" by simp
  have "a mod 16 < length ''0123456789abcdef''" "b mod 16 < length ''0123456789abcdef''"
    by simp_all
  then show ?thesis unfolding hexdigit_def by (simp only: nth_eq_iff_index_eq [OF d])
qed

lemma digit_split:
  "r < 16 \<Longrightarrow> r' < 16 \<Longrightarrow> (x = y \<and> r = r') = (16 * x + r = 16 * y + (r'::nat))"
  by arith

lemma hex_of_eq_iff: "(hex_of k a = hex_of k b) = (a mod 16 ^ k = b mod 16 ^ k)"
proof (induction k arbitrary: a b)
  case (Suc k)
  have "(hex_of (Suc k) a = hex_of (Suc k) b)
        = (hex_of k (a div 16) = hex_of k (b div 16) \<and> hexdigit a = hexdigit b)"
    by (simp add: length_hex_of)
  also have "\<dots> = (a div 16 mod 16 ^ k = b div 16 mod 16 ^ k \<and> a mod 16 = b mod 16)"
    by (simp only: Suc hexdigit_eq_iff)
  also have "\<dots> = (a mod 16 ^ Suc k = b mod 16 ^ Suc k)"
  proof -
    have m: "x mod 16 ^ Suc k = 16 * (x div 16 mod 16 ^ k) + x mod 16" for x :: nat
      by (simp add: mod_mult2_eq)
    have l: "x mod 16 < 16" for x :: nat by simp
    show ?thesis
      unfolding m by (rule digit_split [OF l l])
  qed
  finally show ?case .
qed simp

lemma take_hex_of: "take k (hex_of (k + m) n) = hex_of k (n div 16 ^ m)"
proof (induction m arbitrary: n)
  case (Suc m)
  have "take k (hex_of (k + Suc m) n) = take k (hex_of (k + m) (n div 16))"
    by (simp add: length_hex_of)
  also have "\<dots> = hex_of k (n div 16 div 16 ^ m)" by (rule Suc)
  also have "n div 16 div 16 ^ m = n div 16 ^ Suc m" by (simp add: div_mult2_eq)
  finally show ?case .
qed (simp add: length_hex_of)

lemma new_session_id_eq: "new_session_id w = hex_of 12 (unat w div 16 ^ 20)"
  using take_hex_of [of 12 20 "unat w"] by (simp add: new_session_id_def uuid_hex_def)

lemma new_session_id_inj:
  "(new_session_id u = new_session_id v) = (unat u div 16 ^ 20 = unat v div 16 ^ 20)"
proof -
  have b: "unat w div 16 ^ 20 < 16 ^ 12" for w :: "128 word"
  proof -
    have "unat w < 2 ^ 128" using unsigned_less [of w] by simp
    then show ?thesis by (simp add: less_mult_imp_div_less)
  qed
  show ?thesis
    by (simp only: new_session_id_eq hex_of_eq_iff mod_less [OF b])
qed

lemma length_new_session_id: "length (new_session_id w) = 12"
  by (simp add: new_session_id_eq length_hex_of)

lemma set_new_session_id: "set (new_session_id w) \<subseteq> set ''0123456789abcdef''"
  unfolding new_session_id_eq by (rule set_hex_of)

lemma strip_lower_r: "py_lower (py_strip ''r'') = ''r''" "py_lower (py_strip ''reset'') = ''reset''"
  by (simp_all add: py_strip_def py_lower_def is_space_def lower_char_def)

lemma handle_line_reset:
  "py_lower (py_strip line) \<in> set [''r'', ''reset''] \<Longrightarrow> handle_line orc line s = do_reset orc s"
  by (auto simp: handle_line_def Let_def)

text \<open>
  Two different version 4 UUIDs with the same first twelve digits: a reset that draws the
  second while the session came from the first leaves the identifier as it was, so the
  claim C8, that the identifier after a reset differs from the one before, fails.
\<close>

theorem reset_may_keep_identifier:
  "session_id (busy_client\<lparr>session_id := new_session_id 0x1b9d6bcdbbfd4b2d9b5dab8dfbbd4bed\<rparr>)
     = ''1b9d6bcdbbfd''
   \<and> handle_line \<lparr>fresh_uuid = 0x1b9d6bcdbbfd40008000000000000000, reset_result = None\<rparr>
        ''r'' (busy_client\<lparr>session_id := new_session_id 0x1b9d6bcdbbfd4b2d9b5dab8dfbbd4bed\<rparr>)
     = Continue (busy_client\<lparr>session_id := ''1b9d6bcdbbfd''\<rparr>)
         [ResetConversation, PrintReset ''1b9d6bcd'', Prompt WakePrompt] None"
  by (simp add: handle_line_reset strip_lower_r do_reset_def prompt_def
      new_session_id_def uuid_hex_def hex_of_numeral hexdigit_def)

text \<open>
  C8, as amended.  A reset command is handled whatever the busy flag is: the hub's
  conversation reset is called and the session identifier becomes the first twelve
  digits of the hexadecimal form of the UUID just drawn, twelve characters among
  \<open>0-9a-f\<close>.  It is not compared with the old identifier: it equals the identifier made
  from another UUID exactly when the two UUIDs agree above their low 80 bits.  When the
  hub call raises, the exception leaves the command loop with the new identifier in place.
\<close>

theorem reset_always_allowed:
  assumes "line \<in> set [''r'', ''reset'']"
  shows "(\<exists>evs. ResetConversation \<in> set evs
            \<and> handle_line orc line s =
                (case reset_result orc of
                   None \<Rightarrow>
                     Continue (s\<lparr>session_id := new_session_id (fresh_uuid orc)\<rparr>) evs None
                 | Some x \<Rightarrow>
                     Crashed x (s\<lparr>session_id := new_session_id (fresh_uuid orc)\<rparr>) evs))
       \<and> handle_line orc line (s\<lparr>processing := True\<rparr>)
           = do_reset orc (s\<lparr>processing := True\<rparr>)
       \<and> length (new_session_id (fresh_uuid orc)) = 12
       \<and> set (new_session_id (fresh_uuid orc)) \<subseteq> set ''0123456789abcdef''
       \<and> (new_session_id (fresh_uuid orc) = new_session_id u)
           = (unat (fresh_uuid orc) div 16 ^ 20 = unat u div 16 ^ 20)"
proof -
  from assms have r: "py_lower (py_strip line) \<in> set [''r'', ''reset'']"
    using strip_lower_r by auto
  have "\<exists>evs. ResetConversation \<in> set evs
            \<and> do_reset orc s =
                (case reset_result orc of
                   None \<Rightarrow>
                     Continue (s\<lparr>session_id := new_session_id (fresh_uuid orc)\<rparr>) evs None
                 | Some x \<Rightarrow>
                     Crashed x (s\<lparr>session_id := new_session_id (fresh_uuid orc)\<rparr>) evs)"
    by (cases "reset_result orc") (simp_all add: do_reset_def)
  then show ?thesis
    by (simp only: handle_line_reset [OF r] length_new_session_id set_new_session_id
        new_session_id_inj simp_thms)
qed

lemma example_ids:
  "new_session_id 0x9f86d081884c4d659a2feaa0c55ad015 = ''9f86d081884c''"
  "new_session_id 0x1b9d6bcdbbfd4b2d9b5dab8dfbbd4bed = ''1b9d6bcdbbfd''"
  by (simp_all add: new_session_id_def uuid_hex_def hex_of_numeral hexdigit_def)

theorem reset_always_allowed_witness:
  "handle_line \<lparr>fresh_uuid = 0x9f86d081884c4d659a2feaa0c55ad015, reset_result = None\<rparr>
      ''reset'' busy_client
     = Continue (busy_client\<lparr>session_id := ''9f86d081884c''\<rparr>)
         [ResetConversation, PrintReset ''9f86d081'', Prompt WakePrompt] None
   \<and> length (new_session_id 0x9f86d081884c4d659a2feaa0c55ad015) = 12"
  using reset_always_allowed
    [where line = "''reset''" and s = busy_client
       and orc = "\<lparr>fresh_uuid = 0x9f86d081884c4d659a2feaa0c55ad015, reset_result = None\<rparr>"
       and u = "0x1b9d6bcdbbfd4b2d9b5dab8dfbbd4bed"]
  by (simp add: do_reset_def prompt_def example_ids)

section \<open>Command words in any capitalisation\<close>

lemma ascii_lower_fixed: "is_ascii_lower c \<Longrightarrow> lower_char c = c"
  by (simp add: is_ascii_lower_def lower_char_def Let_def)

lemma ascii_lower_upper: "is_ascii_lower c \<Longrightarrow> lower_char (upper_char c) = c"
proof -
  assume a: "is_ascii_lower c"
  then have n: "97 \<le> (of_char c :: nat)" "(of_char c :: nat) \<le> 122"
    by (simp_all add: is_ascii_lower_def Let_def)
  then have u: "(of_char (upper_char c) :: nat) = of_char c - 32"
    by (simp add: upper_char_def)
  have r: "char_of ((of_char c :: nat) - 32 + 32) = c"
    using n by simp
  have "65 \<le> (of_char c :: nat) - 32 \<and> (of_char c :: nat) - 32 \<le> 90"
    using n by arith
  then show ?thesis
    by (simp add: lower_char_def u Let_def r)
qed

lemma ascii_lower_not_space:
  "is_ascii_lower c \<Longrightarrow> \<not> is_space c \<and> \<not> is_space (upper_char c)"
proof -
  assume a: "is_ascii_lower c"
  then have n: "97 \<le> (of_char c :: nat)" "(of_char c :: nat) \<le> 122"
    by (simp_all add: is_ascii_lower_def Let_def)
  then have u: "(of_char (upper_char c) :: nat) = of_char c - 32"
    by (simp add: upper_char_def)
  have "\<not> is_space c" using n unfolding is_space_def Let_def by arith
  moreover have "\<not> is_space (upper_char c)" using n unfolding is_space_def u Let_def by arith
  ultimately show ?thesis by simp
qed

lemma caps_lower:
  "list_all is_ascii_lower w \<Longrightarrow> u \<in> set (caps w)
   \<Longrightarrow> py_lower u = w \<and> list_all (\<lambda>c. \<not> is_space c) u"
proof (induction w arbitrary: u)
  case Nil
  then show ?case by (simp add: py_lower_def)
next
  case (Cons c cs)
  from Cons.prems have c: "is_ascii_lower c" and cs: "list_all is_ascii_lower cs" by simp_all
  from Cons.prems c obtain v where
    v: "v \<in> set (caps cs)" "u = c # v \<or> u = upper_char c # v" by auto
  from Cons.IH [OF cs v(1)] have ih: "py_lower v = cs" "list_all (\<lambda>c. \<not> is_space c) v"
    by simp_all
  show ?case
    using v(2) ih ascii_lower_fixed [OF c] ascii_lower_upper [OF c] ascii_lower_not_space [OF c]
    by (auto simp: py_lower_def)
qed

lemma dropWhile_pad:
  "list_all P a \<Longrightarrow> u \<noteq> [] \<Longrightarrow> \<not> P (hd u) \<Longrightarrow> dropWhile P (a @ u @ b) = u @ b"
  by (induction a) (auto simp: neq_Nil_conv)

lemma py_strip_pad:
  assumes "list_all is_space a" "list_all is_space b"
    and "u \<noteq> []" "\<not> is_space (hd u)" "\<not> is_space (last u)"
  shows "py_strip (a @ u @ b) = u"
proof -
  have 1: "dropWhile is_space (a @ u @ b) = u @ b"
    by (rule dropWhile_pad [OF assms(1,3,4)])
  have rb: "list_all is_space (rev b)" using assms(2) by (simp add: list_all_iff)
  have ru: "rev u \<noteq> []" "\<not> is_space (hd (rev u))"
    using assms(3,5) by (simp_all add: hd_rev)
  have 2: "dropWhile is_space (rev b @ rev u @ []) = rev u @ []"
    by (rule dropWhile_pad [OF rb ru])
  show ?thesis
    using 2 by (simp add: py_strip_def 1)
qed

lemma py_strip_caps:
  assumes "list_all is_space a" "list_all is_space b"
    and "list_all is_ascii_lower w" "w \<noteq> []" "u \<in> set (caps w)"
  shows "py_lower (py_strip (a @ u @ b)) = w"
proof -
  from caps_lower [OF assms(3,5)] have l: "py_lower u = w" "list_all (\<lambda>c. \<not> is_space c) u"
    by simp_all
  from l(1) assms(4) have ne: "u \<noteq> []" by (auto simp: py_lower_def)
  from l(2) ne have "\<not> is_space (hd u)" "\<not> is_space (last u)"
    by (simp_all add: list_all_iff)
  from py_strip_pad [OF assms(1,2) ne this] l(1) show ?thesis by simp
qed


lemma tokens_lower:
  "list_all is_ascii_lower ''q''" "list_all is_ascii_lower ''quit''"
  "list_all is_ascii_lower ''exit''" "list_all is_ascii_lower ''r''"
  "list_all is_ascii_lower ''reset''"
  by (simp_all add: is_ascii_lower_def)

lemma inline_text:
  assumes "list_all is_space a" "list_all is_space b"
    and "msg \<noteq> []" "\<not> is_space (hd msg)" "\<not> is_space (last msg)"
    and "\<not> processing s" and "t = CHR ''t'' \<or> t = CHR ''T''"
  shows "handle_line orc (a @ t # CHR '' '' # msg @ b) s = Continue s [] (Some (RunText msg))"
proof -
  have sp: "\<not> is_space t" using assms(7) by (auto simp: is_space_def)
  have "py_strip (a @ (t # CHR '' '' # msg) @ b) = t # CHR '' '' # msg"
    using assms(3,5) sp by (intro py_strip_pad [OF assms(1,2)]) simp_all
  then have cmd: "py_strip (a @ t # CHR '' '' # msg @ b) = t # CHR '' '' # msg" by simp
  have st: "py_strip msg = msg"
    using py_strip_pad [of "[]" "[]" msg] assms(3,4,5) by simp
  have lt: "lower_char t = CHR ''t''" "lower_char CHR '' '' = CHR '' ''"
    using assms(7) by (auto simp: lower_char_def char_of_eq_iff)
  show ?thesis
    using assms(3,6) by (simp add: handle_line_def Let_def cmd py_lower_def lt st)
qed

text \<open>
  C10.  Around a command word any white space may stand.  Every capitalisation of
  \<open>q\<close>, \<open>quit\<close> and \<open>exit\<close> ends the loop; every capitalisation of \<open>r\<close> and
  \<open>reset\<close> does what \<open>r\<close> does, the reset; and, when no turn is in flight, a line
  \<open>T hello\<close> starts the same text turn as \<open>t hello\<close>, with the words as they were typed.
\<close>

theorem commands_case_insensitive:
  assumes "list_all is_space a" and "list_all is_space b"
  shows "(u \<in> set (caps ''q'' @ caps ''quit'' @ caps ''exit'')
            \<longrightarrow> handle_line orc (a @ u @ b) s = Break)
       \<and> (u \<in> set (caps ''r'' @ caps ''reset'')
            \<longrightarrow> handle_line orc (a @ u @ b) s = do_reset orc s
                \<and> handle_line orc (a @ u @ b) s = handle_line orc ''r'' s)
       \<and> (\<not> processing s \<and> msg \<noteq> [] \<and> \<not> is_space (hd msg) \<and> \<not> is_space (last msg)
            \<longrightarrow> handle_line orc (a @ ''T '' @ msg @ b) s = Continue s [] (Some (RunText msg))
                \<and> handle_line orc (a @ ''t '' @ msg @ b) s = Continue s [] (Some (RunText msg)))"
proof (intro conjI impI)
  assume "u \<in> set (caps ''q'' @ caps ''quit'' @ caps ''exit'')"
  then have "u \<in> set (caps ''q'') \<or> u \<in> set (caps ''quit'') \<or> u \<in> set (caps ''exit'')"
    by (simp only: set_append Un_iff)
  then have "py_lower (py_strip (a @ u @ b)) \<in> set [''q'', ''quit'', ''exit'']"
    using py_strip_caps [OF assms tokens_lower(1), of u]
          py_strip_caps [OF assms tokens_lower(2), of u]
          py_strip_caps [OF assms tokens_lower(3), of u]
    by auto
  then show "handle_line orc (a @ u @ b) s = Break"
    by (simp add: handle_line_def Let_def)
next
  assume "u \<in> set (caps ''r'' @ caps ''reset'')"
  then have "u \<in> set (caps ''r'') \<or> u \<in> set (caps ''reset'')"
    by (simp only: set_append Un_iff)
  then have r: "py_lower (py_strip (a @ u @ b)) \<in> set [''r'', ''reset'']"
    using py_strip_caps [OF assms tokens_lower(4), of u]
          py_strip_caps [OF assms tokens_lower(5), of u]
    by auto
  show "handle_line orc (a @ u @ b) s = do_reset orc s"
    by (rule handle_line_reset [OF r])
  then show "handle_line orc (a @ u @ b) s = handle_line orc ''r'' s"
    by (simp add: handle_line_reset strip_lower_r)
next
  assume h: "\<not> processing s \<and> msg \<noteq> [] \<and> \<not> is_space (hd msg) \<and> \<not> is_space (last msg)"
  then show "handle_line orc (a @ ''T '' @ msg @ b) s = Continue s [] (Some (RunText msg))"
    using inline_text [OF assms, of msg s "CHR ''T''" orc] by simp
next
  assume h: "\<not> processing s \<and> msg \<noteq> [] \<and> \<not> is_space (hd msg) \<and> \<not> is_space (last msg)"
  then show "handle_line orc (a @ ''t '' @ msg @ b) s = Continue s [] (Some (RunText msg))"
    using inline_text [OF assms, of msg s "CHR ''t''" orc] by simp
qed

lemma char_eq_char_of: "(c = char_of (n::nat)) = (take_bit 8 n = of_char c)"
  using char_of_eq_iff [of n c] by auto

theorem commands_case_insensitive_witness:
  "handle_line \<lparr>fresh_uuid = 0x9f86d081884c4d659a2feaa0c55ad015, reset_result = None\<rparr>
     '' QuIt'' demo_client = Break
   \<and> handle_line \<lparr>fresh_uuid = 0x9f86d081884c4d659a2feaa0c55ad015, reset_result = None\<rparr>
     '' RESET'' demo_client
     = do_reset \<lparr>fresh_uuid = 0x9f86d081884c4d659a2feaa0c55ad015, reset_result = None\<rparr>
         demo_client
   \<and> handle_line \<lparr>fresh_uuid = 0x9f86d081884c4d659a2feaa0c55ad015, reset_result = None\<rparr>
     '' T Lights On'' demo_client = Continue demo_client [] (Some (RunText ''Lights On''))"
  using commands_case_insensitive
    [where a = "'' ''" and b = "[]" and u = "''QuIt''" and msg = "''Lights On''"
       and s = demo_client
       and orc = "\<lparr>fresh_uuid = 0x9f86d081884c4d659a2feaa0c55ad015, reset_result = None\<rparr>"]
    commands_case_insensitive
    [where a = "'' ''" and b = "[]" and u = "''RESET''" and msg = "''Lights On''"
       and s = demo_client
       and orc = "\<lparr>fresh_uuid = 0x9f86d081884c4d659a2feaa0c55ad015, reset_result = None\<rparr>"]
  by (simp add: is_space_def is_ascii_lower_def upper_char_def char_of_eq_iff char_eq_char_of)

end
